theory Spec2Isabelle
  imports Main
begin

section \<open>Python strings\<close>

text \<open>
  A Python \<open>str\<close> is a sequence of Unicode code points. String literals of the source are
  ASCII and are written through \<open>lit\<close>.
\<close>

type_synonym codepoint = nat
type_synonym pystr = "codepoint list"

definition lit :: "string \<Rightarrow> pystr" where
  "lit s = map of_char s"

text \<open>
  \<open>str.isspace\<close> on one code point, as \<open>str.strip()\<close> without argument uses it:
  U+0009..U+000D, U+001C..U+0020, U+0085, U+00A0, U+1680, U+2000..U+200A, U+2028, U+2029,
  U+202F, U+205F, U+3000.
\<close>

definition isspace :: "codepoint \<Rightarrow> bool" where
  "isspace c \<longleftrightarrow>
     (9 \<le> c \<and> c \<le> 13) \<or> (28 \<le> c \<and> c \<le> 32) \<or> c = 133 \<or> c = 160 \<or> c = 5760 \<or>
     (8192 \<le> c \<and> c \<le> 8202) \<or> c = 8232 \<or> c = 8233 \<or> c = 8239 \<or> c = 8287 \<or> c = 12288"

definition lstrip :: "pystr \<Rightarrow> pystr" where
  "lstrip s = dropWhile isspace s"

definition rstrip :: "pystr \<Rightarrow> pystr" where
  "rstrip s = rev (dropWhile isspace (rev s))"

definition strip :: "pystr \<Rightarrow> pystr" where
  "strip s = rstrip (lstrip s)"

section \<open>The list widget and its items\<close>

datatype ItemFlag =
    ItemIsSelectable | ItemIsEditable | ItemIsDragEnabled
  | ItemIsDropEnabled | ItemIsUserCheckable | ItemIsEnabled

datatype CheckState = Unchecked | PartiallyChecked | Checked

datatype SelectionMode =
    NoSelection | SingleSelection | MultiSelection | ExtendedSelection | ContiguousSelection

text \<open>
  A \<open>QListWidgetItem\<close> is an object: \<open>ident\<close> is its identity, which \<open>QListWidget.row\<close>
  compares. \<open>checkState = None\<close> is an item without check-state data (no check box is
  shown); \<open>selected\<close> is the item's selection state in the view.
\<close>

record QListWidgetItem =
  ident :: nat
  item_text :: pystr
  flags :: "ItemFlag set"
  checkState :: "CheckState option"
  selected :: bool

text \<open>
  \<open>QListWidgetItem(text)\<close>: a fresh item is enabled, selectable, checkable and a drag
  source; it has no check state yet and is not selected.
\<close>

definition QListWidgetItem_new :: "nat \<Rightarrow> pystr \<Rightarrow> QListWidgetItem" where
  "QListWidgetItem_new a s =
     \<lparr>ident = a, item_text = s,
      flags = {ItemIsSelectable, ItemIsUserCheckable, ItemIsEnabled, ItemIsDragEnabled},
      checkState = None, selected = False\<rparr>"

definition setFlags :: "ItemFlag set \<Rightarrow> QListWidgetItem \<Rightarrow> QListWidgetItem" where
  "setFlags fs it = it\<lparr>flags := fs\<rparr>"

definition setCheckState :: "CheckState \<Rightarrow> QListWidgetItem \<Rightarrow> QListWidgetItem" where
  "setCheckState c it = it\<lparr>checkState := Some c\<rparr>"

text \<open>
  The list view: its selection mode, its rows, and the identity of the current item
  (\<open>None\<close> when no row is current).
\<close>

record QListWidget =
  selectionMode :: SelectionMode
  items :: "QListWidgetItem list"
  currentItem :: "nat option"

text \<open>
  \<open>QListWidget()\<close>: an empty list view without a current item; a list view starts in
  single-selection mode.
\<close>

definition QListWidget_new :: QListWidget where
  "QListWidget_new = \<lparr>selectionMode = SingleSelection, items = [], currentItem = None\<rparr>"

definition count :: "QListWidget \<Rightarrow> nat" where
  "count lw = length (items lw)"

definition addItem :: "QListWidgetItem \<Rightarrow> QListWidget \<Rightarrow> QListWidget" where
  "addItem it lw = lw\<lparr>items := items lw @ [it]\<rparr>"

definition selectedItems :: "QListWidget \<Rightarrow> QListWidgetItem list" where
  "selectedItems lw = filter selected (items lw)"

text \<open>\<open>row(item)\<close>: the index of the item object in the list, \<open>-1\<close> when it is not there.\<close>

fun index_of :: "nat \<Rightarrow> QListWidgetItem list \<Rightarrow> int" where
  "index_of a [] = - 1"
| "index_of a (x # xs) =
     (if ident x = a then 0
      else (let r = index_of a xs in if r < 0 then - 1 else r + 1))"

definition row :: "QListWidget \<Rightarrow> QListWidgetItem \<Rightarrow> int" where
  "row lw it = index_of (ident it) (items lw)"

text \<open>
  A selection command of the view; \<open>reselect c\<close> gives row \<open>i\<close> the selection state
  \<open>selects c i old\<close>.
\<close>

datatype SelectionCommand =
    NoUpdate | Clear | ClearAndSelect nat | Deselect nat | Toggle nat | SelectRange nat nat

fun selects :: "SelectionCommand \<Rightarrow> nat \<Rightarrow> bool \<Rightarrow> bool" where
  "selects NoUpdate i old = old"
| "selects Clear i old = False"
| "selects (ClearAndSelect r) i old = (i = r)"
| "selects (Deselect r) i old = (if i = r then False else old)"
| "selects (Toggle r) i old = (if i = r then \<not> old else old)"
| "selects (SelectRange a r) i old = (min a r \<le> i \<and> i \<le> max a r)"

fun reselect :: "SelectionCommand \<Rightarrow> nat \<Rightarrow> QListWidgetItem list \<Rightarrow> QListWidgetItem list" where
  "reselect c i [] = []"
| "reselect c i (x # xs) = x\<lparr>selected := selects c i (selected x)\<rparr> # reselect c (Suc i) xs"

text \<open>
  What the view does just before row \<open>r\<close> leaves the list. Nothing, unless that row is the
  current one. In single-selection mode the view then looks for an enabled row, first among
  the rows after \<open>r\<close>, then among the rows before it from the nearest on, makes it the
  current row and selects it alone. When there is no such row, or in another mode, the
  selection stays and the row above \<open>r\<close> becomes current, or the row below when \<open>r\<close> is the
  first, or none when \<open>r\<close> is the only row.
\<close>

fun first_enabled :: "nat list \<Rightarrow> QListWidgetItem list \<Rightarrow> nat option" where
  "first_enabled [] xs = None"
| "first_enabled (j # js) xs =
     (if ItemIsEnabled \<in> flags (xs ! j) then Some j else first_enabled js xs)"

definition neighbour :: "nat \<Rightarrow> QListWidgetItem list \<Rightarrow> nat option" where
  "neighbour r xs = first_enabled ([Suc r ..< length xs] @ rev [0 ..< r]) xs"

definition rowsAboutToBeRemoved :: "nat \<Rightarrow> QListWidget \<Rightarrow> QListWidget" where
  "rowsAboutToBeRemoved r lw =
     (if currentItem lw = Some (ident (items lw ! r))
      then (case (if selectionMode lw = SingleSelection then neighbour r (items lw) else None) of
              Some j \<Rightarrow>
                lw\<lparr>currentItem := Some (ident (items lw ! j)),
                   items := reselect (if ItemIsSelectable \<in> flags (items lw ! j)
                                      then ClearAndSelect j else Clear) 0 (items lw)\<rparr>
            | None \<Rightarrow>
                lw\<lparr>currentItem :=
                     (if 0 < r then Some (ident (items lw ! (r - 1)))
                      else if Suc r < length (items lw) then Some (ident (items lw ! Suc r))
                      else None)\<rparr>)
      else lw)"

text \<open>
  \<open>takeItem(row)\<close>: the view is told, then the item at that row leaves the list; a row out
  of range removes nothing.
\<close>

definition takeItem :: "int \<Rightarrow> QListWidget \<Rightarrow> QListWidget" where
  "takeItem r lw =
     (if 0 \<le> r \<and> r < int (length (items lw))
      then (let lw' = rowsAboutToBeRemoved (nat r) lw
            in lw'\<lparr>items := take (nat r) (items lw') @ drop (Suc (nat r)) (items lw')\<rparr>)
      else lw)"

section \<open>The window\<close>

record QTimer =
  interval :: nat
  active :: bool

text \<open>
  The widgets of \<open>WatchWindow\<close> that carry state. \<open>fresh\<close> is the identity the next
  created object gets.
\<close>

record WatchWindow =
  time_label :: pystr
  date_label :: pystr
  rem_input :: pystr
  rem_list :: QListWidget
  timer :: QTimer
  fresh :: nat

definition add_reminder :: "WatchWindow \<Rightarrow> WatchWindow" where
  "add_reminder w =
     (let text = strip (rem_input w) in
      if text = [] then w
      else
        let item = QListWidgetItem_new (fresh w) text;
            item = setFlags (flags item \<union> {ItemIsUserCheckable, ItemIsEnabled, ItemIsSelectable}) item;
            item = setCheckState Unchecked item
        in w\<lparr>rem_list := addItem item (rem_list w), rem_input := [], fresh := Suc (fresh w)\<rparr>)"

text \<open>
  The loop of \<open>delete_selected\<close> runs over the list that \<open>selectedItems()\<close> returned before
  the first removal.
\<close>

fun delete_loop :: "QListWidgetItem list \<Rightarrow> QListWidget \<Rightarrow> QListWidget" where
  "delete_loop [] lw = lw"
| "delete_loop (item # rest) lw = delete_loop rest (takeItem (row lw item) lw)"

definition delete_selected :: "WatchWindow \<Rightarrow> WatchWindow" where
  "delete_selected w = w\<lparr>rem_list := delete_loop (selectedItems (rem_list w)) (rem_list w)\<rparr>"

section \<open>The clock\<close>

text \<open>
  The fields of \<open>time.struct_time\<close> that the two format strings read: \<open>tm_mon\<close> counts
  from 1, \<open>tm_wday\<close> from 0 (Monday).
\<close>

record struct_time =
  tm_year :: nat
  tm_mon :: nat
  tm_mday :: nat
  tm_hour :: nat
  tm_min :: nat
  tm_sec :: nat
  tm_wday :: nat

text \<open>The names that the \<open>LC_TIME\<close> locale in effect gives to weekdays and months.\<close>

record lc_time =
  day_name :: "nat \<Rightarrow> pystr"
  month_name :: "nat \<Rightarrow> pystr"

definition digit :: "nat \<Rightarrow> codepoint" where
  "digit d = 48 + d"

fun decimal :: "nat \<Rightarrow> pystr" where
  "decimal n = (if n < 10 then [digit n] else decimal (n div 10) @ [digit (n mod 10)])"

declare decimal.simps [simp del]

text \<open>A number in at least two digits, padded with a zero (\<open>%02d\<close>).\<close>

definition fmt_02d :: "nat \<Rightarrow> pystr" where
  "fmt_02d n = (if n < 10 then [digit 0, digit n] else decimal n)"

text \<open>
  One conversion of \<open>strftime\<close>: \<open>%H\<close>, \<open>%M\<close>, \<open>%S\<close> and \<open>%d\<close> are two-digit numbers,
  \<open>%A\<close> and \<open>%B\<close> the locale's full weekday and month name, \<open>%Y\<close> the year with century
  in decimal; any other character is copied with its percent sign.
\<close>

definition conversion :: "lc_time \<Rightarrow> char \<Rightarrow> struct_time \<Rightarrow> pystr" where
  "conversion L c t =
     (if c = CHR ''H'' then fmt_02d (tm_hour t)
      else if c = CHR ''M'' then fmt_02d (tm_min t)
      else if c = CHR ''S'' then fmt_02d (tm_sec t)
      else if c = CHR ''d'' then fmt_02d (tm_mday t)
      else if c = CHR ''A'' then day_name L (tm_wday t)
      else if c = CHR ''B'' then month_name L (tm_mon t)
      else if c = CHR ''Y'' then decimal (tm_year t)
      else [of_char CHR ''%'', of_char c])"

fun strftime :: "lc_time \<Rightarrow> string \<Rightarrow> struct_time \<Rightarrow> pystr" where
  "strftime L [] t = []"
| "strftime L [c] t = [of_char c]"
| "strftime L (c # d # fmt) t =
     (if c = CHR ''%'' then conversion L d t @ strftime L fmt t
      else of_char c # strftime L (d # fmt) t)"



text \<open>
  \<open>update_clock\<close> calls \<open>strftime\<close> twice, and each call reads the clock: \<open>now\<close> is the
  time of the first reading, \<open>now'\<close> of the second.
\<close>

definition update_clock ::
  "lc_time \<Rightarrow> struct_time \<Rightarrow> struct_time \<Rightarrow> WatchWindow \<Rightarrow> WatchWindow" where
  "update_clock L now now' w =
     w\<lparr>time_label := strftime L ''%H:%M:%S'' now,
       date_label := strftime L ''%A, %d %B %Y'' now'\<rparr>"

section \<open>Locale selection at import time\<close>

datatype exn = locale_Error

text \<open>
  \<open>locale.setlocale(locale.LC_TIME, loc)\<close>: the state is the name of the \<open>LC_TIME\<close> locale
  in effect; \<open>installed\<close> says which locales the platform has. An unknown locale raises
  and changes nothing.
\<close>

definition setlocale :: "(string \<Rightarrow> bool) \<Rightarrow> string \<Rightarrow> string \<Rightarrow> exn + string" where
  "setlocale installed loc cur = (if installed loc then Inr loc else Inl locale_Error)"

text \<open>The \<open>for\<close> loop: \<open>break\<close> after the first call that returns, \<open>pass\<close> on any exception.\<close>

fun locale_loop :: "(string \<Rightarrow> bool) \<Rightarrow> string list \<Rightarrow> string \<Rightarrow> exn + string" where
  "locale_loop installed [] cur = Inr cur"
| "locale_loop installed (loc # locs) cur =
     (case setlocale installed loc cur of
        Inr cur' \<Rightarrow> Inr cur'
      | Inl e \<Rightarrow> locale_loop installed locs cur)"

definition localize :: "(string \<Rightarrow> bool) \<Rightarrow> string \<Rightarrow> exn + string" where
  "localize installed cur =
     locale_loop installed [''pt_BR.UTF-8'', ''Portuguese_Brazil.1252''] cur"

section \<open>Construction and events\<close>

text \<open>
  \<open>WatchWindow.__init__\<close>: empty labels, input and list, the timer started with an interval
  of 1000 ms, then one call of \<open>update_clock\<close>. The selection mode of the list is never set.
\<close>

definition WatchWindow_init :: "lc_time \<Rightarrow> struct_time \<Rightarrow> struct_time \<Rightarrow> WatchWindow" where
  "WatchWindow_init L now now' =
     update_clock L now now'
       \<lparr>time_label = [], date_label = [], rem_input = [], rem_list = QListWidget_new,
        timer = \<lparr>interval = 1000, active = True\<rparr>, fresh = 0\<rparr>"

text \<open>
  What a click on the check box of row \<open>i\<close> does in the view: the item must be enabled and
  user-checkable and must carry a check state; a checked item becomes unchecked, any other
  becomes checked.
\<close>

definition toggle_item :: "QListWidgetItem \<Rightarrow> QListWidgetItem" where
  "toggle_item it =
     (if ItemIsUserCheckable \<in> flags it \<and> ItemIsEnabled \<in> flags it
      then (case checkState it of
              None \<Rightarrow> it
            | Some c \<Rightarrow> it\<lparr>checkState := Some (if c = Checked then Unchecked else Checked)\<rparr>)
      else it)"

definition checkbox_clicked :: "nat \<Rightarrow> QListWidget \<Rightarrow> QListWidget" where
  "checkbox_clicked i lw =
     (if i < length (items lw)
      then lw\<lparr>items := (items lw)[i := toggle_item (items lw ! i)]\<rparr>
      else lw)"

text \<open>
  What a click on row \<open>r\<close> does to the selection, by selection mode. \<open>ShiftModifier a\<close> is
  a click with Shift held while row \<open>a\<close> is the current row. The clicked row becomes
  the current one.
\<close>

datatype KeyMod = NoModifier | ControlModifier | ShiftModifier nat

fun selection_command :: "SelectionMode \<Rightarrow> KeyMod \<Rightarrow> bool \<Rightarrow> nat \<Rightarrow> SelectionCommand" where
  "selection_command NoSelection m was r = NoUpdate"
| "selection_command SingleSelection ControlModifier True r = Deselect r"
| "selection_command SingleSelection m was r = ClearAndSelect r"
| "selection_command MultiSelection m was r = Toggle r"
| "selection_command ExtendedSelection ControlModifier was r = Toggle r"
| "selection_command ExtendedSelection (ShiftModifier a) was r = SelectRange a r"
| "selection_command ExtendedSelection NoModifier was r = ClearAndSelect r"
| "selection_command ContiguousSelection (ShiftModifier a) was r = SelectRange a r"
| "selection_command ContiguousSelection m was r = ClearAndSelect r"

definition item_clicked :: "KeyMod \<Rightarrow> nat \<Rightarrow> QListWidget \<Rightarrow> QListWidget" where
  "item_clicked m r lw =
     (if r < length (items lw) \<and> ItemIsSelectable \<in> flags (items lw ! r)
         \<and> ItemIsEnabled \<in> flags (items lw ! r)
      then lw\<lparr>currentItem := Some (ident (items lw ! r)),
              items :=
                reselect (selection_command (selectionMode lw) m (selected (items lw ! r)) r) 0
                  (items lw)\<rparr>
      else lw)"

text \<open>
  The signals the constructor connects (\<open>add_btn.clicked\<close>, \<open>rem_input.returnPressed\<close>,
  \<open>del_btn.clicked\<close>, \<open>timer.timeout\<close>) and what the user does to the widgets themselves:
  editing the input field, clicking a check box, clicking a row.
\<close>

datatype event =
    Add_clicked
  | Input_returnPressed
  | Del_clicked
  | Timer_timeout struct_time struct_time
  | Input_edited pystr
  | Item_checkbox_clicked nat
  | Item_clicked KeyMod nat

fun fire :: "lc_time \<Rightarrow> event \<Rightarrow> WatchWindow \<Rightarrow> WatchWindow" where
  "fire L Add_clicked w = add_reminder w"
| "fire L Input_returnPressed w = add_reminder w"
| "fire L Del_clicked w = delete_selected w"
| "fire L (Timer_timeout now now') w =
     (if active (timer w) then update_clock L now now' w else w)"
| "fire L (Input_edited s) w = w\<lparr>rem_input := s\<rparr>"
| "fire L (Item_checkbox_clicked i) w = w\<lparr>rem_list := checkbox_clicked i (rem_list w)\<rparr>"
| "fire L (Item_clicked m r) w = w\<lparr>rem_list := item_clicked m r (rem_list w)\<rparr>"

fun run :: "lc_time \<Rightarrow> event list \<Rightarrow> WatchWindow \<Rightarrow> WatchWindow" where
  "run L [] w = w"
| "run L (e # es) w = run L es (fire L e w)"

section \<open>What holds of every window the program reaches\<close>

text \<open>
  A stored text has no white space at either end and is not made of white space only.
\<close>

definition reminder_ok :: "QListWidgetItem \<Rightarrow> bool" where
  "reminder_ok it \<longleftrightarrow>
     item_text it \<noteq> [] \<and> \<not> isspace (hd (item_text it)) \<and> \<not> isspace (last (item_text it))
     \<and> \<not> list_all isspace (item_text it)"

text \<open>An item the user can check and select: the three flags, and a check state to show.\<close>

definition user_item :: "QListWidgetItem \<Rightarrow> bool" where
  "user_item it \<longleftrightarrow>
     ItemIsUserCheckable \<in> flags it \<and> ItemIsEnabled \<in> flags it \<and> ItemIsSelectable \<in> flags it
     \<and> checkState it \<noteq> None"

definition window_ok :: "WatchWindow \<Rightarrow> bool" where
  "window_ok w \<longleftrightarrow>
     sorted_wrt (<) (map ident (items (rem_list w)))
     \<and> list_all (\<lambda>it. ident it < fresh w) (items (rem_list w))
     \<and> list_all reminder_ok (items (rem_list w))
     \<and> list_all user_item (items (rem_list w))
     \<and> selectionMode (rem_list w) = SingleSelection
     \<and> length (selectedItems (rem_list w)) \<le> 1
     \<and> timer w = \<lparr>interval = 1000, active = True\<rparr>"

section \<open>Example states\<close>

definition example_items :: "QListWidgetItem list" where
  "example_items =
     [\<lparr>ident = 0, item_text = lit ''a'',
       flags = {ItemIsSelectable, ItemIsUserCheckable, ItemIsEnabled, ItemIsDragEnabled},
       checkState = Some Checked, selected = False\<rparr>,
      \<lparr>ident = 1, item_text = lit ''b'',
       flags = {ItemIsSelectable, ItemIsUserCheckable, ItemIsEnabled, ItemIsDragEnabled},
       checkState = Some Unchecked, selected = True\<rparr>,
      \<lparr>ident = 2, item_text = lit ''c'',
       flags = {ItemIsSelectable, ItemIsUserCheckable, ItemIsEnabled, ItemIsDragEnabled},
       checkState = Some Unchecked, selected = False\<rparr>]"

definition example_window :: WatchWindow where
  "example_window =
     \<lparr>time_label = [], date_label = [], rem_input = lit ''  Buy milk '',
      rem_list = \<lparr>selectionMode = SingleSelection, items = example_items,
                  currentItem = Some 1\<rparr>,
      timer = \<lparr>interval = 1000, active = True\<rparr>, fresh = 3\<rparr>"

definition blank_window :: WatchWindow where
  "blank_window = example_window\<lparr>rem_input := lit ''   ''\<rparr>"

definition example_locale :: lc_time where
  "example_locale =
     \<lparr>day_name = (\<lambda>d. if d = 3 then lit ''Thursday'' else lit ''Monday''),
      month_name = (\<lambda>m. if m = 6 then lit ''June'' else lit ''January'')\<rparr>"

definition example_time :: struct_time where
  "example_time =
     \<lparr>tm_year = 2025, tm_mon = 6, tm_mday = 5, tm_hour = 7, tm_min = 3, tm_sec = 9, tm_wday = 3\<rparr>"

text \<open>
  A session: two reminders are added, the first is checked, the second is clicked and
  deleted. The second list tries to select both rows, the second one with Ctrl held. The
  third adds three reminders, clicks the middle one and deletes it.
\<close>

definition example_session :: "event list" where
  "example_session =
     [Input_edited (lit ''Buy milk''), Add_clicked,
      Input_edited (lit '' Call mom ''), Input_returnPressed,
      Item_checkbox_clicked 0, Item_clicked NoModifier 1, Del_clicked]"

definition ctrl_click_session :: "event list" where
  "ctrl_click_session =
     [Input_edited (lit ''a''), Add_clicked, Input_edited (lit ''b''), Add_clicked,
      Item_clicked NoModifier 0, Item_clicked ControlModifier 1]"

definition delete_middle_session :: "event list" where
  "delete_middle_session =
     [Input_edited (lit ''a''), Add_clicked, Input_edited (lit ''b''), Add_clicked,
      Input_edited (lit ''c''), Add_clicked, Item_clicked NoModifier 1, Del_clicked]"

definition idle_window :: WatchWindow where
  "idle_window =
     example_window\<lparr>rem_list := \<lparr>selectionMode = SingleSelection, items = [example_items ! 0],
                                  currentItem = None\<rparr>\<rparr>"

section \<open>Trimming and removal\<close>

lemma last_dropWhile_keep: "dropWhile P xs \<noteq> [] \<Longrightarrow> last (dropWhile P xs) = last xs"
  by (induction xs) (auto split: if_splits)

lemma strip_hd: "strip s \<noteq> [] \<Longrightarrow> \<not> isspace (hd (strip s))"
proof -
  assume ne: "strip s \<noteq> []"
  let ?d = "dropWhile isspace s"
  let ?e = "dropWhile isspace (rev ?d)"
  from ne have e: "?e \<noteq> []" by (simp add: strip_def rstrip_def lstrip_def)
  have d: "?d \<noteq> []"
  proof
    assume a: "?d = []"
    have h: "?e = []" unfolding a by simp
    from e h show False by (rule notE)
  qed
  have "hd (strip s) = last ?e" using e by (simp add: strip_def rstrip_def lstrip_def hd_rev)
  also have "\<dots> = last (rev ?d)" using e by (rule last_dropWhile_keep)
  also have "\<dots> = hd ?d" using d by (simp add: last_rev)
  finally show ?thesis using hd_dropWhile [OF d] by simp
qed

lemma strip_last: "strip s \<noteq> [] \<Longrightarrow> \<not> isspace (last (strip s))"
proof -
  assume ne: "strip s \<noteq> []"
  let ?e = "dropWhile isspace (rev (dropWhile isspace s))"
  from ne have e: "?e \<noteq> []" by (simp add: strip_def rstrip_def lstrip_def)
  have "last (strip s) = hd ?e" using e by (simp add: strip_def rstrip_def lstrip_def last_rev)
  then show ?thesis using hd_dropWhile [OF e] by simp
qed

lemma index_of_remove:
  "distinct (map ident xs) \<Longrightarrow>
   (if 0 \<le> index_of a xs \<and> index_of a xs < int (length xs)
    then take (nat (index_of a xs)) xs @ drop (Suc (nat (index_of a xs))) xs else xs)
   = filter (\<lambda>x. ident x \<noteq> a) xs"
proof (induction xs)
  case Nil
  then show ?case by simp
next
  case (Cons x xs)
  show ?case
  proof (cases "ident x = a")
    case True
    with Cons.prems have "a \<notin> ident ` set xs" by auto
    then have "filter (\<lambda>x. ident x \<noteq> a) xs = xs" by (auto simp: filter_id_conv)
    with True show ?thesis by simp
  next
    case False
    from Cons have IH: "(if 0 \<le> index_of a xs \<and> index_of a xs < int (length xs)
      then take (nat (index_of a xs)) xs @ drop (Suc (nat (index_of a xs))) xs else xs)
      = filter (\<lambda>x. ident x \<noteq> a) xs" by simp
    show ?thesis
    proof (cases "index_of a xs < 0")
      case True
      with IH False show ?thesis by (auto simp: Let_def split: if_splits)
    next
      case nn: False
      then have "nat (index_of a xs + 1) = Suc (nat (index_of a xs))" by simp
      with IH False nn show ?thesis by (auto simp: Let_def split: if_splits)
    qed
  qed
qed

section \<open>Adding a reminder\<close>

text \<open>
  C1. When the trimmed input is not empty, \<open>add_reminder\<close> makes the list one entry
  longer, the new entry is the last one, its text is the trimmed input and it is unchecked,
  the entries that were there are the same entries at the same places, and the input field
  is empty afterwards.
\<close>

theorem add_reminder_appends:
  assumes "strip (rem_input w) \<noteq> []"
  shows "count (rem_list (add_reminder w)) = count (rem_list w) + 1
       \<and> item_text (last (items (rem_list (add_reminder w)))) = strip (rem_input w)
       \<and> checkState (last (items (rem_list (add_reminder w)))) = Some Unchecked
       \<and> butlast (items (rem_list (add_reminder w))) = items (rem_list w)
       \<and> rem_input (add_reminder w) = []"
  using assms
  by (simp add: add_reminder_def Let_def addItem_def count_def setFlags_def setCheckState_def
      QListWidgetItem_new_def)

theorem add_reminder_appends_witness:
  "strip (rem_input example_window) \<noteq> []
   \<and> count (rem_list (add_reminder example_window)) = 4
   \<and> item_text (last (items (rem_list (add_reminder example_window)))) = lit ''Buy milk''
   \<and> butlast (items (rem_list (add_reminder example_window))) = example_items
   \<and> rem_input (add_reminder example_window) = []"
proof -
  have s: "strip (rem_input example_window) = lit ''Buy milk''"
    by (simp add: example_window_def strip_def lstrip_def rstrip_def lit_def isspace_def)
  then have ne: "strip (rem_input example_window) \<noteq> []"
    by (simp add: lit_def)
  have c: "count (rem_list example_window) = 3" "items (rem_list example_window) = example_items"
    by (simp_all add: example_window_def example_items_def count_def)
  from add_reminder_appends [OF ne] s ne c show ?thesis by simp
qed

text \<open>
  C4. When the trimmed input is empty, \<open>add_reminder\<close> returns the window as it was: no
  entry is created and the input field keeps its contents.
\<close>

theorem add_reminder_blank_noop:
  assumes "strip (rem_input w) = []"
  shows "add_reminder w = w"
  using assms by (simp add: add_reminder_def)

theorem add_reminder_blank_noop_witness:
  "strip (rem_input blank_window) = [] \<and> add_reminder blank_window = blank_window"
proof -
  have s: "strip (rem_input blank_window) = []"
    by (simp add: blank_window_def strip_def lstrip_def rstrip_def lit_def isspace_def)
  from add_reminder_blank_noop [OF s] s show ?thesis by simp
qed

section \<open>Deleting the selected reminders\<close>

lemma index_of_idents: "map ident xs = map ident ys \<Longrightarrow> index_of a xs = index_of a ys"
proof (induction xs arbitrary: ys)
  case Nil
  then show ?case by simp
next
  case (Cons x xs)
  then obtain y ys' where ys: "ys = y # ys'" by (cases ys) auto
  with Cons.prems have "ident x = ident y" "map ident xs = map ident ys'" by simp_all
  with Cons.IH [of ys'] ys show ?case by simp
qed

lemma reselect_length: "length (reselect c i xs) = length xs"
  by (induction xs arbitrary: i) simp_all

lemma reselect_map:
  assumes "\<And>x b. f (x\<lparr>selected := b\<rparr>) = f x"
  shows "map f (reselect c i xs) = map f xs"
  by (induction xs arbitrary: i) (simp_all add: assms)

lemma rowsAboutToBeRemoved_map:
  assumes "\<And>x b. f (x\<lparr>selected := b\<rparr>) = f x"
  shows "map f (items (rowsAboutToBeRemoved r lw)) = map f (items lw)"
  by (simp add: rowsAboutToBeRemoved_def reselect_map [of f, OF assms] split: option.splits)

lemma rowsAboutToBeRemoved_mode:
  "selectionMode (rowsAboutToBeRemoved r lw) = selectionMode lw"
  by (simp add: rowsAboutToBeRemoved_def split: option.splits)

lemma map_filter_ident:
  "map ident xs = map ident ys \<Longrightarrow> map f xs = map f ys \<Longrightarrow>
   map f (filter (\<lambda>x. P (ident x)) xs) = map f (filter (\<lambda>x. P (ident x)) ys)"
proof (induction xs arbitrary: ys)
  case Nil
  then show ?case by simp
next
  case (Cons x xs)
  then obtain y ys' where ys: "ys = y # ys'" by (cases ys) auto
  with Cons.prems have e: "ident x = ident y" "f x = f y"
    and r: "map ident xs = map ident ys'" "map f xs = map f ys'" by simp_all
  from Cons.IH [OF r] e ys show ?case by simp
qed

lemma takeItem_row:
  assumes d: "distinct (map ident (items lw))"
    and f: "\<And>x b. f (x\<lparr>selected := b\<rparr>) = f x"
  shows "map f (items (takeItem (row lw it) lw))
           = map f (filter (\<lambda>x. ident x \<noteq> ident it) (items lw))"
proof -
  let ?r = "index_of (ident it) (items lw)"
  let ?lw = "rowsAboutToBeRemoved (nat ?r) lw"
  have id: "map ident (items ?lw) = map ident (items lw)"
    by (rule rowsAboutToBeRemoved_map) simp
  have fm: "map f (items ?lw) = map f (items lw)"
    by (rule rowsAboutToBeRemoved_map) (rule f)
  have len: "length (items ?lw) = length (items lw)"
    using id by (metis length_map)
  have r: "index_of (ident it) (items ?lw) = ?r" using id by (rule index_of_idents)
  have d': "distinct (map ident (items ?lw))" using d id by simp
  show ?thesis
  proof (cases "0 \<le> ?r \<and> ?r < int (length (items lw))")
    case True
    then have "items (takeItem (row lw it) lw)
        = take (nat ?r) (items ?lw) @ drop (Suc (nat ?r)) (items ?lw)"
      by (simp add: takeItem_def row_def Let_def)
    also have "\<dots> = filter (\<lambda>x. ident x \<noteq> ident it) (items ?lw)"
      using index_of_remove [OF d', of "ident it"] True by (simp add: r len)
    finally have "map f (items (takeItem (row lw it) lw))
        = map f (filter (\<lambda>x. ident x \<noteq> ident it) (items ?lw))" by simp
    also have "\<dots> = map f (filter (\<lambda>x. ident x \<noteq> ident it) (items lw))"
      using id fm by (rule map_filter_ident)
    finally show ?thesis .
  next
    case False
    then have "takeItem (row lw it) lw = lw"
      unfolding takeItem_def row_def by (rule if_not_P)
    then have "items (takeItem (row lw it) lw) = items lw" by simp
    moreover have "filter (\<lambda>x. ident x \<noteq> ident it) (items lw) = items lw"
      using index_of_remove [OF d, of "ident it"] False by (simp split: if_splits)
    ultimately show ?thesis by simp
  qed
qed

lemma takeItem_mode: "selectionMode (takeItem r lw) = selectionMode lw"
  by (simp add: takeItem_def Let_def rowsAboutToBeRemoved_mode)

lemma delete_loop_mode: "selectionMode (delete_loop sel lw) = selectionMode lw"
  by (induction sel arbitrary: lw) (simp_all add: takeItem_mode)

lemma delete_loop_filter:
  assumes f: "\<And>x b. f (x\<lparr>selected := b\<rparr>) = f x"
  shows "distinct (map ident (items lw)) \<Longrightarrow>
     map f (items (delete_loop sel lw))
       = map f (filter (\<lambda>x. ident x \<notin> ident ` set sel) (items lw))"
proof (induction sel arbitrary: lw)
  case Nil
  then show ?case by simp
next
  case (Cons it sel)
  let ?lw = "takeItem (row lw it) lw"
  let ?xs = "filter (\<lambda>x. ident x \<noteq> ident it) (items lw)"
  have id: "map ident (items ?lw) = map ident ?xs"
    using Cons.prems by (rule takeItem_row) simp
  have fm: "map f (items ?lw) = map f ?xs"
    using Cons.prems by (rule takeItem_row) (rule f)
  have d: "distinct (map ident (items ?lw))"
    using Cons.prems by (simp add: id distinct_map_filter)
  have "map f (items (delete_loop (it # sel) lw)) = map f (items (delete_loop sel ?lw))" by simp
  also have "\<dots> = map f (filter (\<lambda>x. ident x \<notin> ident ` set sel) (items ?lw))"
    using d by (rule Cons.IH)
  also have "\<dots> = map f (filter (\<lambda>x. ident x \<notin> ident ` set sel) ?xs)"
    using id fm by (rule map_filter_ident)
  also have "\<dots> = map f (filter (\<lambda>x. ident x \<notin> ident ` set (it # sel)) (items lw))"
    by (simp add: conj_commute)
  finally show ?case .
qed

lemma selected_by_ident:
  assumes "distinct (map ident xs)" and "x \<in> set xs"
  shows "ident x \<in> ident ` set (filter selected xs) \<longleftrightarrow> selected x"
proof
  assume "ident x \<in> ident ` set (filter selected xs)"
  then obtain y where y: "y \<in> set xs" "selected y" "ident y = ident x" by auto
  from assms(1) have "inj_on ident (set xs)" by (simp add: distinct_map)
  with y assms(2) have "y = x" by (auto dest: inj_onD)
  with y show "selected x" by simp
next
  assume "selected x"
  with assms(2) show "ident x \<in> ident ` set (filter selected xs)" by auto
qed

lemma nths_restrict: "nths xs {i. i < length xs \<and> i \<in> A} = nths xs A"
proof -
  have "filter (\<lambda>p. snd p \<in> {i. i < length xs \<and> i \<in> A}) (zip xs [0..<length xs])
      = filter (\<lambda>p. snd p \<in> A) (zip xs [0..<length xs])"
    by (rule filter_cong [OF refl]) (auto dest: set_zip_rightD)
  then show ?thesis by (simp only: nths_def)
qed

lemma delete_loop_selected:
  assumes "distinct (map ident (items lw))" and "\<And>x b. f (x\<lparr>selected := b\<rparr>) = f x"
    and "\<forall>i < length (items lw). selected (items lw ! i) \<longleftrightarrow> i \<in> S"
  shows "map f (items (delete_loop (selectedItems lw) lw)) = map f (nths (items lw) (- S))"
proof -
  let ?xs = "items lw"
  have "filter (\<lambda>x. ident x \<notin> ident ` set (selectedItems lw)) ?xs
        = filter (\<lambda>x. \<not> selected x) ?xs"
    unfolding selectedItems_def
    by (rule filter_cong [OF refl]) (simp only: selected_by_ident [OF assms(1)])
  also have "\<dots> = nths ?xs {i. i < length ?xs \<and> \<not> selected (?xs ! i)}"
    by (simp only: filter_eq_nths)
  also have "{i. i < length ?xs \<and> \<not> selected (?xs ! i)} = {i. i < length ?xs \<and> i \<in> - S}"
    using assms(3) by auto
  also have "nths ?xs {i. i < length ?xs \<and> i \<in> - S} = nths ?xs (- S)" by (rule nths_restrict)
  finally show ?thesis using assms(1) by (simp add: delete_loop_filter [of f, OF assms(2)])
qed

text \<open>
  C2. Whatever set \<open>S\<close> of rows is selected, \<open>delete_selected\<close> changes nothing but the
  list, and the rows it leaves are the rows outside \<open>S\<close> in their order: the same item
  objects with the same texts, check states and flags; with nothing selected the window is
  unchanged. Item objects are distinct. Which of the remaining rows is selected afterwards
  is the view's doing and is not stated.
\<close>

theorem delete_selected_removes_selection:
  assumes "distinct (map ident (items (rem_list w)))"
      and "\<forall>i < count (rem_list w). selected (items (rem_list w) ! i) \<longleftrightarrow> i \<in> S"
  shows "map ident (items (rem_list (delete_selected w)))
           = map ident (nths (items (rem_list w)) (- S))
       \<and> map item_text (items (rem_list (delete_selected w)))
           = map item_text (nths (items (rem_list w)) (- S))
       \<and> map checkState (items (rem_list (delete_selected w)))
           = map checkState (nths (items (rem_list w)) (- S))
       \<and> map flags (items (rem_list (delete_selected w)))
           = map flags (nths (items (rem_list w)) (- S))
       \<and> delete_selected w = w\<lparr>rem_list := rem_list (delete_selected w)\<rparr>
       \<and> selectionMode (rem_list (delete_selected w)) = selectionMode (rem_list w)
       \<and> (S = {} \<longrightarrow> delete_selected w = w)"
proof -
  from assms(2) have s: "\<forall>i < length (items (rem_list w)).
      selected (items (rem_list w) ! i) \<longleftrightarrow> i \<in> S" by (simp add: count_def)
  note m = delete_loop_selected [OF assms(1) _ s]
  have 1: "map ident (items (rem_list (delete_selected w)))
           = map ident (nths (items (rem_list w)) (- S))"
    unfolding delete_selected_def using m [of ident] by simp
  have 2: "map item_text (items (rem_list (delete_selected w)))
           = map item_text (nths (items (rem_list w)) (- S))"
    unfolding delete_selected_def using m [of item_text] by simp
  have 3: "map checkState (items (rem_list (delete_selected w)))
           = map checkState (nths (items (rem_list w)) (- S))"
    unfolding delete_selected_def using m [of checkState] by simp
  have 4: "map flags (items (rem_list (delete_selected w)))
           = map flags (nths (items (rem_list w)) (- S))"
    unfolding delete_selected_def using m [of flags] by simp
  have 5: "delete_selected w = w\<lparr>rem_list := rem_list (delete_selected w)\<rparr>"
    by (simp add: delete_selected_def)
  have 6: "selectionMode (rem_list (delete_selected w)) = selectionMode (rem_list w)"
    by (simp add: delete_selected_def delete_loop_mode)
  have 7: "S = {} \<longrightarrow> delete_selected w = w"
  proof
    assume "S = {}"
    with s have "filter selected (items (rem_list w)) = []"
      by (auto simp: filter_empty_conv in_set_conv_nth)
    then show "delete_selected w = w" by (simp add: delete_selected_def selectedItems_def)
  qed
  from 1 2 3 4 5 6 7 show ?thesis by blast
qed

theorem delete_selected_removes_selection_witness:
  "distinct (map ident (items (rem_list example_window)))
   \<and> map selected (items (rem_list example_window)) = [False, True, False]
   \<and> map item_text (items (rem_list (delete_selected example_window))) = [lit ''a'', lit ''c'']
   \<and> map checkState (items (rem_list (delete_selected example_window)))
       = [Some Checked, Some Unchecked]
   \<and> delete_selected idle_window = idle_window"
proof -
  have d0: "distinct (map ident (items (rem_list idle_window)))"
    by (simp add: idle_window_def example_window_def example_items_def)
  have s0: "\<forall>i < count (rem_list idle_window).
          selected (items (rem_list idle_window) ! i) \<longleftrightarrow> i \<in> {}"
    by (simp add: idle_window_def example_window_def example_items_def count_def)
  from delete_selected_removes_selection [OF d0 s0]
  have e: "delete_selected idle_window = idle_window" by blast
  have d: "distinct (map ident (items (rem_list example_window)))"
    by (simp add: example_window_def example_items_def)
  have s: "\<forall>i < count (rem_list example_window).
          selected (items (rem_list example_window) ! i) \<longleftrightarrow> i \<in> {1}"
    by (simp add: example_window_def example_items_def count_def numeral_3_eq_3 less_Suc_eq)
  have n: "nths example_items (- {Suc 0}) = [example_items ! 0, example_items ! 2]"
    by (simp add: example_items_def nths_Cons)
  have i: "items (rem_list example_window) = example_items"
    by (simp add: example_window_def)
  from delete_selected_removes_selection [OF d s] have
    "map item_text (items (rem_list (delete_selected example_window)))
       = map item_text [example_items ! 0, example_items ! 2]"
    "map checkState (items (rem_list (delete_selected example_window)))
       = map checkState [example_items ! 0, example_items ! 2]"
    by (simp_all add: i n)
  moreover have "map selected (items (rem_list example_window)) = [False, True, False]"
    by (simp add: example_window_def example_items_def)
  ultimately show ?thesis using d e by (simp add: example_items_def)
qed

section \<open>The clock labels\<close>













text \<open>
  C8. \<open>update_clock\<close>, called directly or by the timer, changes the two labels and nothing
  else: the reminder list, with every entry, and the input field are as before.
\<close>

theorem update_clock_frame:
  "update_clock L now now' w
     = w\<lparr>time_label := time_label (update_clock L now now' w),
         date_label := date_label (update_clock L now now' w)\<rparr>
   \<and> rem_list (update_clock L now now' w) = rem_list w
   \<and> rem_input (update_clock L now now' w) = rem_input w
   \<and> rem_list (fire L (Timer_timeout now now') w) = rem_list w
   \<and> rem_input (fire L (Timer_timeout now now') w) = rem_input w"
  by (simp add: update_clock_def)

section \<open>Locale selection\<close>

text \<open>
  C6. Whatever locales are installed, the loop ends without an exception: the locale in
  effect is the first candidate that is installed, and the one that was in effect before
  when none is.
\<close>

theorem localize_first_installed:
  "localize installed cur =
     Inr (if installed ''pt_BR.UTF-8'' then ''pt_BR.UTF-8''
          else if installed ''Portuguese_Brazil.1252'' then ''Portuguese_Brazil.1252''
          else cur)"
  by (simp add: localize_def setlocale_def)

section \<open>Selection and check boxes, item by item\<close>

lemma strip_reminder_ok:
  assumes "strip s \<noteq> []"
  shows "reminder_ok (it\<lparr>item_text := strip s\<rparr>)"
proof -
  from assms have "hd (strip s) \<in> set (strip s)" by simp
  with strip_hd [OF assms] have "\<not> list_all isspace (strip s)" by (auto simp: list_all_iff)
  with assms strip_hd [OF assms] strip_last [OF assms] show ?thesis by (simp add: reminder_ok_def)
qed

lemma reselect_all:
  assumes "\<And>x b. P (x\<lparr>selected := b\<rparr>) = P x"
  shows "list_all P (reselect f i xs) = list_all P xs"
  by (induction xs arbitrary: i) (simp_all add: assms)

lemma reselect_nth:
  "k < length xs \<Longrightarrow> reselect f i xs ! k = (xs ! k)\<lparr>selected := selects f (i + k) (selected (xs ! k))\<rparr>"
proof (induction xs arbitrary: i k)
  case Nil
  then show ?case by simp
next
  case (Cons x xs)
  then show ?case by (cases k) simp_all
qed

lemma clear_and_select_later:
  "r < i \<Longrightarrow> filter selected (reselect (ClearAndSelect r) i xs) = []"
  by (induction xs arbitrary: i) simp_all

lemma clear_and_select_one:
  "length (filter selected (reselect (ClearAndSelect r) i xs)) \<le> 1"
proof (induction xs arbitrary: i)
  case Nil
  then show ?case by simp
next
  case (Cons x xs)
  show ?case
  proof (cases "i = r")
    case True
    then have "filter selected (reselect (ClearAndSelect r) (Suc i) xs) = []"
      by (simp add: clear_and_select_later)
    with True show ?thesis by simp
  next
    case False
    with Cons.IH [of "Suc i"] show ?thesis by simp
  qed
qed

lemma deselect_fewer:
  "length (filter selected (reselect (Deselect r) i xs)) \<le> length (filter selected xs)"
proof (induction xs arbitrary: i)
  case Nil
  then show ?case by simp
next
  case (Cons x xs)
  from Cons.IH [of "Suc i"] show ?case by (simp add: le_SucI)
qed

lemma clear_none: "filter selected (reselect Clear i xs) = []"
  by (induction xs arbitrary: i) simp_all

lemma rowsAboutToBeRemoved_one:
  assumes "length (filter selected (items lw)) \<le> 1"
  shows "length (filter selected (items (rowsAboutToBeRemoved r lw))) \<le> 1"
  using assms clear_and_select_one
  by (simp add: rowsAboutToBeRemoved_def clear_none split: option.splits)

lemma remove_row_fewer:
  "length (filter P (take r xs @ drop (Suc r) xs)) \<le> length (filter P xs)"
proof (cases "r < length xs")
  case True
  then have "xs = take r xs @ xs ! r # drop (Suc r) xs" by (rule id_take_nth_drop)
  then have "length (filter P xs) = length (filter P (take r xs @ xs ! r # drop (Suc r) xs))"
    by simp
  then show ?thesis by simp
next
  case False
  then show ?thesis by simp
qed

lemma takeItem_one:
  assumes "length (filter selected (items lw)) \<le> 1"
  shows "length (filter selected (items (takeItem r lw))) \<le> 1"
proof (cases "0 \<le> r \<and> r < int (length (items lw))")
  case True
  let ?ys = "items (rowsAboutToBeRemoved (nat r) lw)"
  from True have "items (takeItem r lw) = take (nat r) ?ys @ drop (Suc (nat r)) ?ys"
    by (simp add: takeItem_def Let_def)
  with remove_row_fewer [of selected "nat r" ?ys] rowsAboutToBeRemoved_one [OF assms, of "nat r"]
  show ?thesis by simp
next
  case False
  then have "takeItem r lw = lw" unfolding takeItem_def by (rule if_not_P)
  with assms show ?thesis by simp
qed

lemma delete_loop_one:
  "length (filter selected (items lw)) \<le> 1 \<Longrightarrow>
   length (filter selected (items (delete_loop sel lw))) \<le> 1"
proof (induction sel arbitrary: lw)
  case Nil
  then show ?case by simp
next
  case (Cons it sel)
  from Cons.prems have "length (filter selected (items (takeItem (row lw it) lw))) \<le> 1"
    by (rule takeItem_one)
  then have "length (filter selected (items (delete_loop sel (takeItem (row lw it) lw)))) \<le> 1"
    by (rule Cons.IH)
  then show ?case by simp
qed

lemma list_all_map_bool: "list_all P xs = list_all (\<lambda>b. b) (map P xs)"
  by (simp add: list_all_iff)

lemma single_command:
  "selection_command SingleSelection m was r = Deselect r
   \<or> selection_command SingleSelection m was r = ClearAndSelect r"
  by (cases m; cases was) simp_all

lemma single_click_one:
  assumes "length (filter selected xs) \<le> 1"
  shows "length (filter selected (reselect (selection_command SingleSelection m was r) i xs)) \<le> 1"
proof -
  from single_command [of m was r] show ?thesis
  proof
    assume "selection_command SingleSelection m was r = Deselect r"
    with deselect_fewer [of r i xs] assms show ?thesis by simp
  next
    assume "selection_command SingleSelection m was r = ClearAndSelect r"
    with clear_and_select_one [of r i xs] show ?thesis by simp
  qed
qed

lemma toggle_item_keeps:
  "ident (toggle_item x) = ident x" "item_text (toggle_item x) = item_text x"
  "flags (toggle_item x) = flags x" "selected (toggle_item x) = selected x"
  "(checkState (toggle_item x) = None) = (checkState x = None)"
  by (simp_all add: toggle_item_def split: option.splits)

lemma toggle_update_map:
  assumes "f (toggle_item (xs ! i)) = f (xs ! i)"
  shows "map f (xs[i := toggle_item (xs ! i)]) = map f xs"
proof (rule nth_equalityI)
  show "length (map f (xs[i := toggle_item (xs ! i)])) = length (map f xs)" by simp
next
  fix k assume "k < length (map f (xs[i := toggle_item (xs ! i)]))"
  then have k: "k < length xs" by simp
  then show "map f (xs[i := toggle_item (xs ! i)]) ! k = map f xs ! k"
    by (cases "k = i") (simp_all add: assms)
qed

lemma toggle_update_all:
  assumes "list_all P xs" and "\<And>x. P x \<Longrightarrow> P (toggle_item x)" and "i < length xs"
  shows "list_all P (xs[i := toggle_item (xs ! i)])"
proof -
  from assms(1,3) have "P (xs ! i)" by (simp add: list_all_length)
  then have "P (toggle_item (xs ! i))" by (rule assms(2))
  with assms(1) show ?thesis
    by (auto simp: list_all_iff dest!: set_update_subset_insert [THEN subsetD])
qed

section \<open>Every handler keeps the window well formed\<close>

lemma init_ok: "window_ok (WatchWindow_init L now now')"
  by (simp add: window_ok_def WatchWindow_init_def update_clock_def QListWidget_new_def
      selectedItems_def)

lemma update_clock_ok: "window_ok w \<Longrightarrow> window_ok (update_clock L now now' w)"
  by (simp add: window_ok_def update_clock_def)

lemma input_edited_ok: "window_ok w \<Longrightarrow> window_ok (w\<lparr>rem_input := s\<rparr>)"
  by (simp add: window_ok_def)

lemma new_item_ok:
  assumes "strip s \<noteq> []"
  shows "reminder_ok (setCheckState Unchecked (setFlags
           (flags (QListWidgetItem_new a (strip s)) \<union> {ItemIsUserCheckable, ItemIsEnabled, ItemIsSelectable})
           (QListWidgetItem_new a (strip s))))"
    and "user_item (setCheckState Unchecked (setFlags
           (flags (QListWidgetItem_new a (strip s)) \<union> {ItemIsUserCheckable, ItemIsEnabled, ItemIsSelectable})
           (QListWidgetItem_new a (strip s))))"
proof -
  from strip_reminder_ok [OF assms, of "QListWidgetItem_new a []"]
  show "reminder_ok (setCheckState Unchecked (setFlags
           (flags (QListWidgetItem_new a (strip s)) \<union> {ItemIsUserCheckable, ItemIsEnabled, ItemIsSelectable})
           (QListWidgetItem_new a (strip s))))"
    by (simp add: reminder_ok_def setCheckState_def setFlags_def QListWidgetItem_new_def)
  show "user_item (setCheckState Unchecked (setFlags
           (flags (QListWidgetItem_new a (strip s)) \<union> {ItemIsUserCheckable, ItemIsEnabled, ItemIsSelectable})
           (QListWidgetItem_new a (strip s))))"
    by (simp add: user_item_def setCheckState_def setFlags_def)
qed

lemma add_reminder_ok:
  assumes "window_ok w"
  shows "window_ok (add_reminder w)"
proof (cases "strip (rem_input w) = []")
  case True
  with assms show ?thesis by (simp add: add_reminder_def)
next
  case False
  define new where "new = setCheckState Unchecked (setFlags
           (flags (QListWidgetItem_new (fresh w) (strip (rem_input w)))
              \<union> {ItemIsUserCheckable, ItemIsEnabled, ItemIsSelectable})
           (QListWidgetItem_new (fresh w) (strip (rem_input w))))"
  have w': "add_reminder w =
      w\<lparr>rem_list := (rem_list w)\<lparr>items := items (rem_list w) @ [new]\<rparr>, rem_input := [],
        fresh := Suc (fresh w)\<rparr>"
    using False by (simp add: add_reminder_def Let_def addItem_def new_def)
  have id: "ident new = fresh w" "\<not> selected new"
    by (simp_all add: new_def setCheckState_def setFlags_def QListWidgetItem_new_def)
  have ok: "reminder_ok new" "user_item new"
    unfolding new_def by (rule new_item_ok [OF False])+
  from assms have lt: "\<forall>x \<in> set (items (rem_list w)). ident x < fresh w"
    by (simp add: window_ok_def list_all_iff)
  then have lt': "list_all (\<lambda>it. ident it < Suc (fresh w)) (items (rem_list w))"
    by (auto simp: list_all_iff)
  from assms lt have so: "sorted_wrt (<) (map ident (items (rem_list w) @ [new]))"
    by (simp add: window_ok_def sorted_wrt_append id)
  from assms show ?thesis
    unfolding w' window_ok_def
    using so lt' ok id
    by (simp add: selectedItems_def)
qed

lemma reminder_ok_selected: "reminder_ok (x\<lparr>selected := b\<rparr>) = reminder_ok x"
  by (simp add: reminder_ok_def)

lemma user_item_selected: "user_item (x\<lparr>selected := b\<rparr>) = user_item x"
  by (simp add: user_item_def)

lemma delete_selected_ok:
  assumes "window_ok w"
  shows "window_ok (delete_selected w)"
proof -
  let ?xs = "items (rem_list w)"
  let ?ys = "items (delete_loop (selectedItems (rem_list w)) (rem_list w))"
  let ?Q = "\<lambda>x. ident x \<notin> ident ` set (selectedItems (rem_list w))"
  from assms have so: "sorted_wrt (<) (map ident ?xs)" by (simp add: window_ok_def)
  then have d: "distinct (map ident ?xs)" by (simp add: strict_sorted_iff)
  have m: "\<And>P. (\<And>x b. P (x\<lparr>selected := b\<rparr>) = P x) \<Longrightarrow> list_all P ?xs \<Longrightarrow> list_all P ?ys"
  proof -
    fix P :: "QListWidgetItem \<Rightarrow> bool"
    assume P: "\<And>x b. P (x\<lparr>selected := b\<rparr>) = P x" and a: "list_all P ?xs"
    have "map P ?ys = map P (filter ?Q ?xs)" using P d by (rule delete_loop_filter)
    moreover from a have "list_all P (filter ?Q ?xs)" by (simp add: list_all_iff)
    ultimately show "list_all P ?ys"
      by (simp only: list_all_map_bool [of P])
  qed
  have "map ident ?ys = map ident (filter ?Q ?xs)" using _ d by (rule delete_loop_filter) simp
  then have 1: "sorted_wrt (<) (map ident ?ys)"
    using so by (simp add: sorted_wrt_map sorted_wrt_filter)
  have 2: "list_all (\<lambda>it. ident it < fresh w) ?ys"
    using assms by (intro m) (simp_all add: window_ok_def)
  have 3: "list_all reminder_ok ?ys"
    using assms by (intro m) (simp_all add: window_ok_def reminder_ok_selected)
  have 4: "list_all user_item ?ys"
    using assms by (intro m) (simp_all add: window_ok_def user_item_selected)
  have 5: "length (filter selected ?ys) \<le> 1"
    using assms by (intro delete_loop_one) (simp add: window_ok_def selectedItems_def)
  from assms 1 2 3 4 5 show ?thesis
    by (simp add: window_ok_def delete_selected_def delete_loop_mode selectedItems_def)
qed

lemma item_clicked_ok:
  assumes "window_ok w"
  shows "window_ok (w\<lparr>rem_list := item_clicked m r (rem_list w)\<rparr>)"
proof (cases "r < length (items (rem_list w)) \<and> ItemIsSelectable \<in> flags (items (rem_list w) ! r)
         \<and> ItemIsEnabled \<in> flags (items (rem_list w) ! r)")
  case False
  then have "item_clicked m r (rem_list w) = rem_list w" by (auto simp: item_clicked_def)
  with assms show ?thesis by simp
next
  case True
  let ?c = "selection_command SingleSelection m (selected (items (rem_list w) ! r)) r"
  from assms have sm: "selectionMode (rem_list w) = SingleSelection" by (simp add: window_ok_def)
  have w': "item_clicked m r (rem_list w) =
      (rem_list w)\<lparr>currentItem := Some (ident (items (rem_list w) ! r)),
                   items := reselect ?c 0 (items (rem_list w))\<rparr>"
    using True sm by (simp add: item_clicked_def)
  have lt: "list_all (\<lambda>it. ident it < fresh w) (reselect ?c 0 (items (rem_list w)))
      = list_all (\<lambda>it. ident it < fresh w) (items (rem_list w))"
    by (rule reselect_all) simp
  have one: "length (filter selected (reselect ?c 0 (items (rem_list w)))) \<le> 1"
    using assms by (intro single_click_one) (simp add: window_ok_def selectedItems_def)
  from assms show ?thesis
    unfolding w' window_ok_def
    using one
    by (simp add: selectedItems_def reselect_map [of ident] lt
        reselect_all [of reminder_ok, OF reminder_ok_selected]
        reselect_all [of user_item, OF user_item_selected])
qed

lemma reminder_ok_toggle: "reminder_ok x \<Longrightarrow> reminder_ok (toggle_item x)"
  by (simp add: reminder_ok_def toggle_item_keeps)

lemma user_item_toggle: "user_item x \<Longrightarrow> user_item (toggle_item x)"
  by (simp add: user_item_def toggle_item_keeps)

lemma checkbox_clicked_ok:
  assumes "window_ok w"
  shows "window_ok (w\<lparr>rem_list := checkbox_clicked i (rem_list w)\<rparr>)"
proof (cases "i < length (items (rem_list w))")
  case False
  then have "checkbox_clicked i (rem_list w) = rem_list w" by (simp add: checkbox_clicked_def)
  with assms show ?thesis by simp
next
  case True
  let ?xs = "items (rem_list w)"
  let ?ys = "?xs[i := toggle_item (?xs ! i)]"
  have w': "checkbox_clicked i (rem_list w) = (rem_list w)\<lparr>items := ?ys\<rparr>"
    using True by (simp add: checkbox_clicked_def)
  have id: "map ident ?ys = map ident ?xs" "map selected ?ys = map selected ?xs"
    by (simp_all add: toggle_update_map toggle_item_keeps)
  have "length (filter selected ?ys) = length (filter id (map selected ?ys))"
    by (simp add: filter_map comp_def)
  also have "\<dots> = length (filter selected ?xs)"
    by (simp add: id filter_map comp_def)
  finally have sel: "length (filter selected ?ys) = length (filter selected ?xs)" .
  have lt: "list_all (\<lambda>it. ident it < fresh w) ?ys"
    using assms True by (intro toggle_update_all) (simp_all add: window_ok_def toggle_item_keeps)
  have ro: "list_all reminder_ok ?ys"
    using assms True by (intro toggle_update_all) (simp_all add: window_ok_def reminder_ok_toggle)
  have ui: "list_all user_item ?ys"
    using assms True by (intro toggle_update_all) (simp_all add: window_ok_def user_item_toggle)
  from assms show ?thesis
    unfolding w' window_ok_def
    using lt ro ui by (simp add: selectedItems_def id sel)
qed

lemma fire_ok: "window_ok w \<Longrightarrow> window_ok (fire L e w)"
  by (cases e)
    (simp_all add: add_reminder_ok delete_selected_ok update_clock_ok input_edited_ok
      checkbox_clicked_ok item_clicked_ok)

lemma run_ok: "window_ok w \<Longrightarrow> window_ok (run L es w)"
  by (induction es arbitrary: w) (simp_all add: fire_ok)

lemma reachable_ok: "window_ok (run L es (WatchWindow_init L now now'))"
  by (rule run_ok) (rule init_ok)

section \<open>Reached windows\<close>

lemma example_session_run:
  "items (rem_list (run L example_session (WatchWindow_init L now now'))) =
     [\<lparr>ident = 0, item_text = lit ''Buy milk'',
       flags = {ItemIsUserCheckable, ItemIsEnabled, ItemIsSelectable, ItemIsDragEnabled},
       checkState = Some Checked, selected = True\<rparr>]"
  by (simp add: example_session_def WatchWindow_init_def update_clock_def QListWidget_new_def
      add_reminder_def strip_def lstrip_def rstrip_def lit_def isspace_def Let_def addItem_def
      setFlags_def setCheckState_def QListWidgetItem_new_def checkbox_clicked_def toggle_item_def
      item_clicked_def delete_selected_def selectedItems_def row_def takeItem_def
      rowsAboutToBeRemoved_def neighbour_def insert_commute)

lemma ctrl_click_session_run:
  "map selected (items (rem_list (run L ctrl_click_session (WatchWindow_init L now now'))))
     = [False, True]
   \<and> map item_text (items (rem_list (run L (ctrl_click_session @ [Del_clicked])
         (WatchWindow_init L now now')))) = [lit ''a'']"
  by (simp add: ctrl_click_session_def WatchWindow_init_def update_clock_def QListWidget_new_def
      add_reminder_def strip_def lstrip_def rstrip_def lit_def isspace_def Let_def addItem_def
      setFlags_def setCheckState_def QListWidgetItem_new_def checkbox_clicked_def toggle_item_def
      item_clicked_def delete_selected_def selectedItems_def row_def takeItem_def
      rowsAboutToBeRemoved_def neighbour_def)

text \<open>
  When the selected row is deleted the view selects a neighbour: of \<open>a\<close>, \<open>b\<close>, \<open>c\<close> with
  \<open>b\<close> clicked, one Delete leaves \<open>a\<close> and \<open>c\<close> with \<open>c\<close> selected, and a second Delete
  leaves \<open>a\<close> alone, selected.
\<close>

lemma delete_middle_session_run:
  "map (\<lambda>x. (item_text x, selected x))
       (items (rem_list (run L delete_middle_session (WatchWindow_init L now now'))))
     = [(lit ''a'', False), (lit ''c'', True)]
   \<and> map (\<lambda>x. (item_text x, selected x))
       (items (rem_list (run L (delete_middle_session @ [Del_clicked])
          (WatchWindow_init L now now'))))
     = [(lit ''a'', True)]"
  by (simp add: delete_middle_session_def WatchWindow_init_def update_clock_def
      QListWidget_new_def add_reminder_def strip_def lstrip_def rstrip_def lit_def isspace_def
      Let_def addItem_def setFlags_def setCheckState_def QListWidgetItem_new_def
      item_clicked_def delete_selected_def selectedItems_def row_def takeItem_def
      rowsAboutToBeRemoved_def neighbour_def upt_rec)

text \<open>
  C5. In every window reached from the constructed one by any events, every stored text is
  non-empty, has a character that is not white space, and neither starts nor ends with white
  space; the items stand in the order of their creation, \<open>ident\<close> being the number an item
  got when it was created.
\<close>

theorem reminders_trimmed_in_insertion_order:
  "list_all reminder_ok (items (rem_list (run L es (WatchWindow_init L now now'))))
   \<and> sorted_wrt (<) (map ident (items (rem_list (run L es (WatchWindow_init L now now')))))
   \<and> list_all (\<lambda>it. ident it < fresh (run L es (WatchWindow_init L now now')))
        (items (rem_list (run L es (WatchWindow_init L now now'))))"
  using reachable_ok [of L es now now'] by (simp add: window_ok_def)

theorem reminders_trimmed_in_insertion_order_witness:
  "map item_text (items (rem_list (run example_locale example_session
       (WatchWindow_init example_locale example_time example_time)))) = [lit ''Buy milk'']
   \<and> list_all reminder_ok (items (rem_list (run example_locale example_session
       (WatchWindow_init example_locale example_time example_time))))"
  using reminders_trimmed_in_insertion_order
      [of example_locale example_session example_time example_time]
  by (simp add: example_session_run)

lemma toggle_item_flips: "user_item x \<Longrightarrow> checkState (toggle_item x) \<noteq> checkState x"
  by (auto simp: user_item_def toggle_item_def split: option.splits)

lemma plain_click_selects:
  assumes "window_ok w" and "i < count (rem_list w)"
  shows "selected (items (item_clicked NoModifier i (rem_list w)) ! i)"
proof -
  from assms have u: "user_item (items (rem_list w) ! i)" and i: "i < length (items (rem_list w))"
    and sm: "selectionMode (rem_list w) = SingleSelection"
    by (simp_all add: window_ok_def count_def list_all_length)
  from u have f: "ItemIsSelectable \<in> flags (items (rem_list w) ! i)"
    "ItemIsEnabled \<in> flags (items (rem_list w) ! i)" by (simp_all add: user_item_def)
  show ?thesis using i f sm by (simp add: item_clicked_def reselect_nth)
qed

text \<open>
  C10. The item that \<open>add_reminder\<close> appends is user-checkable, enabled and selectable and
  is unchecked. In every window reached from the constructed one every item still has the
  three flags and a check state, a click on its check box changes its check state, and a
  click on its row selects it.
\<close>

theorem reminders_checkable_and_selectable:
  "(strip (rem_input w) \<noteq> [] \<longrightarrow>
      user_item (last (items (rem_list (add_reminder w))))
      \<and> checkState (last (items (rem_list (add_reminder w)))) = Some Unchecked)
   \<and> list_all user_item (items (rem_list (run L es (WatchWindow_init L now now'))))
   \<and> (\<forall>i < count (rem_list (run L es (WatchWindow_init L now now'))).
         checkState (items (rem_list (fire L (Item_checkbox_clicked i)
             (run L es (WatchWindow_init L now now')))) ! i)
           \<noteq> checkState (items (rem_list (run L es (WatchWindow_init L now now'))) ! i)
         \<and> selected (items (rem_list (fire L (Item_clicked NoModifier i)
             (run L es (WatchWindow_init L now now')))) ! i))"
proof -
  let ?w = "run L es (WatchWindow_init L now now')"
  have ok: "window_ok ?w" by (rule reachable_ok)
  have a: "strip (rem_input w) \<noteq> [] \<longrightarrow>
      user_item (last (items (rem_list (add_reminder w))))
      \<and> checkState (last (items (rem_list (add_reminder w)))) = Some Unchecked"
    by (simp add: add_reminder_def Let_def addItem_def user_item_def setFlags_def
        setCheckState_def)
  have b: "list_all user_item (items (rem_list ?w))" using ok by (simp add: window_ok_def)
  have c: "\<forall>i < count (rem_list ?w).
         checkState (items (rem_list (fire L (Item_checkbox_clicked i) ?w)) ! i)
           \<noteq> checkState (items (rem_list ?w) ! i)
         \<and> selected (items (rem_list (fire L (Item_clicked NoModifier i) ?w)) ! i)"
  proof (intro allI impI conjI)
    fix i assume i: "i < count (rem_list ?w)"
    with b have "user_item (items (rem_list ?w) ! i)" by (simp add: count_def list_all_length)
    then show "checkState (items (rem_list (fire L (Item_checkbox_clicked i) ?w)) ! i)
           \<noteq> checkState (items (rem_list ?w) ! i)"
      using i by (simp add: checkbox_clicked_def count_def toggle_item_flips)
    show "selected (items (rem_list (fire L (Item_clicked NoModifier i) ?w)) ! i)"
      using plain_click_selects [OF ok i] by simp
  qed
  from a b c show ?thesis by blast
qed

theorem reminders_checkable_and_selectable_witness:
  "strip (rem_input example_window) \<noteq> []
   \<and> user_item (last (items (rem_list (add_reminder example_window))))
   \<and> 0 < count (rem_list (run example_locale example_session
           (WatchWindow_init example_locale example_time example_time)))
   \<and> checkState (items (rem_list (fire example_locale (Item_checkbox_clicked 0)
        (run example_locale example_session (WatchWindow_init example_locale example_time example_time)))) ! 0)
      = Some Unchecked
   \<and> selected (items (rem_list (fire example_locale (Item_clicked NoModifier 0)
        (run example_locale example_session (WatchWindow_init example_locale example_time example_time)))) ! 0)"
proof -
  let ?w = "run example_locale example_session (WatchWindow_init example_locale example_time example_time)"
  have s: "strip (rem_input example_window) \<noteq> []"
    by (simp add: example_window_def strip_def lstrip_def rstrip_def lit_def isspace_def)
  have n: "0 < count (rem_list ?w)" by (simp add: count_def example_session_run)
  have t: "checkState (items (rem_list (fire example_locale (Item_checkbox_clicked 0) ?w)) ! 0)
      = Some Unchecked"
    by (simp add: example_session_run checkbox_clicked_def toggle_item_def)
  from reminders_checkable_and_selectable
    [of example_window example_locale example_session example_time example_time] s n t
  show ?thesis by blast
qed

text \<open>
  C3 (what the code does). The list is built by \<open>QListWidget()\<close> and its selection mode is
  never set, so it stays in single-selection mode: in every window reached from the
  constructed one at most one item is selected, whatever keys are held while clicking.
  With two reminders, a click on the first and a click with Ctrl on the second leave only
  the second selected, and \<open>delete_selected\<close> then removes that one alone.
\<close>

theorem single_selection_only:
  "selectionMode (rem_list (run L es (WatchWindow_init L now now'))) = SingleSelection
   \<and> length (selectedItems (rem_list (run L es (WatchWindow_init L now now')))) \<le> 1
   \<and> map selected (items (rem_list (run L ctrl_click_session (WatchWindow_init L now now'))))
       = [False, True]
   \<and> map item_text (items (rem_list (run L (ctrl_click_session @ [Del_clicked])
         (WatchWindow_init L now now')))) = [lit ''a'']"
  using reachable_ok [of L es now now'] ctrl_click_session_run [of L now now']
  by (simp add: window_ok_def)

text \<open>
  The timer is started with an interval of 1000 ms and no handler stops it; the constructor
  fills both labels before it returns.
\<close>

lemma timer_always_running:
  "timer (run L es (WatchWindow_init L now now')) = \<lparr>interval = 1000, active = True\<rparr>
   \<and> time_label (WatchWindow_init L now now') = strftime L ''%H:%M:%S'' now
   \<and> date_label (WatchWindow_init L now now') = strftime L ''%A, %d %B %Y'' now'"
  using reachable_ok [of L es now now'] by (simp add: window_ok_def WatchWindow_init_def update_clock_def)

end
